theory Spec2Isabelle
  imports Complex_Main "HOL-Library.AList" "HOL-Library.Char_ord" "HOL-Library.List_Lexorder"
    "HOL-Library.Sublist"
begin

section \<open>The email grouping notebook (scripts/tools/emailanalysis/emailgrouping.ipynb)\<close>

text \<open>
  The notebook is a sequence of cells over global variables. Each cell that a property
  below depends on is a function here, named after the notebook's function or after the
  variable the cell assigns. An exception of the Python is a value \<open>Inl e\<close> of a sum
  type. A Python \<open>str\<close> is a \<open>string\<close>; each \<open>char\<close> stands for one code
  point below 256. A float64 is a number of an ordered field (\<open>rat\<close> where a result is
  evaluated, \<open>real\<close> where the logarithm or the square root is needed): rounding is not
  modelled.
\<close>

datatype py_error = TypeError | IndexError | KeyError | ValueError | ComError

subsection \<open>The numpy operations the cells call\<close>

text \<open>
  \<open>np.argsort(a)\<close>: the indices of \<open>a\<close> in ascending order of their values. Equal
  values are kept in index order. That is what numpy's default sort does on an array of
  at most 16 entries (an insertion sort); on a longer array numpy promises no order
  among equal values, and the order of tied indices there is not modelled. Every
  evaluation below that shows an order of equal values is on an array of at most 16
  entries, and no general statement below depends on the order of equal values.
\<close>

definition argsort :: "'a::linorder list \<Rightarrow> nat list" where
  "argsort a = sort_key (\<lambda>i. a ! i) [0..<length a]"

text \<open>\<open>np.count_nonzero(a)\<close>\<close>

definition count_nonzero :: "'a::zero list \<Rightarrow> nat" where
  "count_nonzero a = length (filter (\<lambda>v. v \<noteq> 0) a)"

text \<open>
  The slice \<open>a[:stop:-1]\<close>: Python first brings \<open>stop\<close> into range (a negative
  \<open>stop\<close> counts from the end and is clipped at \<open>-1\<close>, a non-negative one is clipped
  at \<open>len(a) - 1\<close>) and then walks from the last element down to, and without, index
  \<open>stop\<close>.
\<close>

definition slice_to_rev :: "'a list \<Rightarrow> int \<Rightarrow> 'a list" where
  "slice_to_rev a stop =
     (let n = int (length a);
          lo = (if stop < 0 then max (stop + n) (- 1) else min stop (n - 1))
      in rev (drop (nat (lo + 1)) a))"

subsection \<open>Most frequent words: \<open>top_tfidf_feats\<close>, \<open>top_feats_in_doc\<close>, \<open>top_mean_feats\<close>\<close>

text \<open>
  \<^verbatim>\<open>
  def top_tfidf_feats(row, features, top_n=20):
      topn_ids = np.argsort(row)[::-1][:top_n]
      top_feats = [(features[i], row[i]) for i in topn_ids]
  \<close>
  \<open>features[i]\<close> raises IndexError when the feature list is shorter than the row.
\<close>

definition topn_ids :: "'a::linorder list \<Rightarrow> nat \<Rightarrow> nat list" where
  "topn_ids row top_n = take top_n (rev (argsort row))"

definition top_tfidf_feats ::
  "'a::linorder list \<Rightarrow> string list \<Rightarrow> nat \<Rightarrow> py_error + (string \<times> 'a) list" where
  "top_tfidf_feats row features top_n =
     (let ids = topn_ids row top_n
      in if list_all (\<lambda>i. i < length features) ids
         then Inr (map (\<lambda>i. (features ! i, row ! i)) ids)
         else Inl IndexError)"

text \<open>
  \<open>top_feats_in_doc(X, features, row_id, top_n)\<close> passes row \<open>row_id\<close> of the matrix,
  as a one-dimensional array, to \<open>top_tfidf_feats\<close>.

  \<open>X[grp_ids]\<close> of \<open>top_mean_feats\<close>: the rows at a list of indices; an index past
  the last row raises IndexError.
\<close>

definition get_rows :: "'a list list \<Rightarrow> nat list \<Rightarrow> py_error + 'a list list" where
  "get_rows X ids =
     (if list_all (\<lambda>i. i < length X) ids then Inr (map (\<lambda>i. X ! i) ids) else Inl IndexError)"

text \<open>\<open>D[D < min_tfidf] = 0\<close>\<close>

definition denoise :: "'a::{linorder,zero} \<Rightarrow> 'a list list \<Rightarrow> 'a list list" where
  "denoise min_tfidf D = map (map (\<lambda>v. if v < min_tfidf then 0 else v)) D"

text \<open>
  \<open>np.mean(D, axis=0)\<close> of a matrix with \<open>ncols\<close> columns: the mean of every
  column. On a matrix without rows numpy warns and returns NaN in every column; the
  model has no NaN and returns \<open>None\<close> there.
\<close>

definition column_means :: "nat \<Rightarrow> 'a::field list list \<Rightarrow> 'a list option" where
  "column_means ncols D =
     (if D = [] then None
      else Some (map (\<lambda>j. (\<Sum>row\<leftarrow>D. row ! j) / of_nat (length D)) [0..<ncols]))"

text \<open>
  \<^verbatim>\<open>
  def top_mean_feats(X, features,grp_ids=None, min_tfidf=0.1, top_n=25):
      if grp_ids:
          D = X[grp_ids].toarray()
      else:
          D = X.toarray()
      D[D < min_tfidf] = 0
      tfidf_means = np.mean(D, axis=0)
      return top_tfidf_feats(tfidf_means, features, top_n)
  \<close>
  \<open>grp_ids\<close> is \<open>None\<close> or a list of document indices; \<open>if grp_ids:\<close> is true for
  a non-empty list only. The result is \<open>Inr None\<close> where numpy's means are NaN.
\<close>

definition truthy :: "nat list option \<Rightarrow> bool" where
  "truthy grp_ids = (case grp_ids of None \<Rightarrow> False | Some ids \<Rightarrow> ids \<noteq> [])"

definition top_mean_feats ::
  "nat \<Rightarrow> 'a::linordered_field list list \<Rightarrow> string list \<Rightarrow> nat list option \<Rightarrow> 'a \<Rightarrow> nat
     \<Rightarrow> py_error + (string \<times> 'a) list option" where
  "top_mean_feats ncols X features grp_ids min_tfidf top_n =
     (case (if truthy grp_ids then get_rows X (the grp_ids) else Inr X) of
        Inl e \<Rightarrow> Inl e
      | Inr D \<Rightarrow>
          (case column_means ncols (denoise min_tfidf D) of
             None \<Rightarrow> Inr None
           | Some tfidf_means \<Rightarrow>
               (case top_tfidf_feats tfidf_means features top_n of
                  Inl e \<Rightarrow> Inl e
                | Inr df \<Rightarrow> Inr (Some df))))"

subsection \<open>The query cells: \<open>cosine_sim\<close> and \<open>related_email_indices\<close>\<close>

text \<open>
  \<^verbatim>\<open>
  cosine_sim = linear_kernel(vec_query,x_dense).flatten()
  x=np.count_nonzero(cosine_sim)
  related_email_indices = cosine_sim.argsort()[:-x:-1]
  \<close>
  \<open>linear_kernel\<close> is the dot product of the query vector with every row. It raises
  ValueError when the matrix has no row or the query vector no column (scikit-learn
  refuses an array without samples or without features), and when a row has another
  length than the query vector.
\<close>

definition dot :: "'a::semiring_0 list \<Rightarrow> 'a list \<Rightarrow> 'a" where
  "dot u v = (\<Sum>(a, b)\<leftarrow>zip u v. a * b)"

definition linear_kernel :: "'a::semiring_0 list \<Rightarrow> 'a list list \<Rightarrow> py_error + 'a list" where
  "linear_kernel vec_query x_dense =
     (if x_dense = [] \<or> vec_query = [] then Inl ValueError
      else if list_all (\<lambda>row. length row = length vec_query) x_dense
      then Inr (map (dot vec_query) x_dense)
      else Inl ValueError)"

definition related_email_indices :: "'a::{linorder,zero} list \<Rightarrow> nat list" where
  "related_email_indices cosine_sim =
     (let x = count_nonzero cosine_sim
      in slice_to_rev (argsort cosine_sim) (- int x))"

definition search :: "'a::{linorder,semiring_0} list \<Rightarrow> 'a list list \<Rightarrow> py_error + nat list" where
  "search vec_query x_dense =
     (case linear_kernel vec_query x_dense of
        Inl e \<Rightarrow> Inl e
      | Inr cosine_sim \<Rightarrow> Inr (related_email_indices cosine_sim))"

subsection \<open>Regular expressions of the body-cleaning cell\<close>

text \<open>
  The character classes and the operators that the seven patterns of the cell use.
  \<open>\s\<close> is Python's Unicode white space below code point 256, \<open>\S\<close> its complement,
  \<open>\d\<close> a decimal digit, \<open>.\<close> any character but the line feed.
\<close>

definition is_space :: "char \<Rightarrow> bool" where
  "is_space c =
     (let k = of_char c :: nat
      in (9 \<le> k \<and> k \<le> 13) \<or> (28 \<le> k \<and> k \<le> 32) \<or> k = 133 \<or> k = 160)"

definition is_digit :: "char \<Rightarrow> bool" where
  "is_digit c = (let k = of_char c :: nat in 48 \<le> k \<and> k \<le> 57)"

definition is_alnum_ascii :: "char \<Rightarrow> bool" where
  "is_alnum_ascii c =
     (let k = of_char c :: nat
      in (97 \<le> k \<and> k \<le> 122) \<or> (65 \<le> k \<and> k \<le> 90) \<or> (48 \<le> k \<and> k \<le> 57))"

datatype cls =
    Lit char          \<comment> \<open>the character itself\<close>
  | Space             \<comment> \<open>\<open>\s\<close>\<close>
  | NonSpace          \<comment> \<open>\<open>\S\<close>\<close>
  | Digit             \<comment> \<open>\<open>\d\<close>\<close>
  | Dot               \<comment> \<open>\<open>.\<close>\<close>
  | CrLf              \<comment> \<open>\<open>[\r\n]\<close>\<close>
  | NonAlnum          \<comment> \<open>\<open>[^a-zA-Z0-9]\<close>\<close>

fun in_cls :: "cls \<Rightarrow> char \<Rightarrow> bool" where
  "in_cls (Lit a) c = (c = a)"
| "in_cls Space c = is_space c"
| "in_cls NonSpace c = (\<not> is_space c)"
| "in_cls Digit c = is_digit c"
| "in_cls Dot c = (c \<noteq> CHR 0x0A)"
| "in_cls CrLf c = (c = CHR 0x0D \<or> c = CHR 0x0A)"
| "in_cls NonAlnum c = (\<not> is_alnum_ascii c)"

datatype regex =
    One cls               \<comment> \<open>one character of the class\<close>
  | Star cls              \<comment> \<open>\<open>c*\<close>, greedy\<close>
  | Plus cls              \<comment> \<open>\<open>c+\<close>, greedy\<close>
  | Opt cls               \<comment> \<open>\<open>c?\<close>, greedy\<close>
  | Bol                   \<comment> \<open>\<open>^\<close>\<close>
  | Eol                   \<comment> \<open>\<open>$\<close>\<close>
  | Seq regex regex
  | Alt regex regex

text \<open>
  \<open>run c s i\<close>: how many characters of the class stand in \<open>s\<close> from position \<open>i\<close> on.
\<close>

definition run :: "cls \<Rightarrow> string \<Rightarrow> nat \<Rightarrow> nat" where
  "run c s i = length (takeWhile (in_cls c) (drop i s))"

text \<open>
  \<open>ends r s i\<close>: the positions where a match of \<open>r\<close> that starts at position \<open>i\<close> of
  \<open>s\<close> can end, in the order in which Python's backtracking matcher tries them (a
  greedy operator tries its longest repetition first, an alternation its left branch
  first). \<open>^\<close> matches at position 0 only (no MULTILINE flag); \<open>$\<close> matches at the end
  and before a line feed that ends the string.
\<close>

fun ends :: "regex \<Rightarrow> string \<Rightarrow> nat \<Rightarrow> nat list" where
  "ends (One c) s i = (if i < length s \<and> in_cls c (s ! i) then [Suc i] else [])"
| "ends (Star c) s i = rev [i..<Suc (i + run c s i)]"
| "ends (Plus c) s i = rev [Suc i..<Suc (i + run c s i)]"
| "ends (Opt c) s i = (if i < length s \<and> in_cls c (s ! i) then [Suc i, i] else [i])"
| "ends Bol s i = (if i = 0 then [i] else [])"
| "ends Eol s i =
     (if i = length s \<or> (Suc i = length s \<and> s ! i = CHR 0x0A) then [i] else [])"
| "ends (Seq r1 r2) s i = concat (map (ends r2 s) (ends r1 s i))"
| "ends (Alt r1 r2) s i = ends r1 s i @ ends r2 s i"

text \<open>
  \<open>re.sub(pattern, repl, s)\<close>, scanning from position \<open>i\<close>: the leftmost match is
  replaced and the scan goes on behind it; where nothing matches, the character is
  copied. A match that consumes nothing is replaced too and the scan moves one
  character on (every pattern of the cell consumes at least one character).
\<close>

function sub_from :: "regex \<Rightarrow> string \<Rightarrow> string \<Rightarrow> nat \<Rightarrow> string" where
  "sub_from r repl s i =
     (if length s < i then []
      else case ends r s i of
             [] \<Rightarrow> (if i < length s then s ! i # sub_from r repl s (Suc i) else [])
           | e # _ \<Rightarrow>
               if i < e then repl @ sub_from r repl s e
               else repl @ (if i < length s then s ! i # sub_from r repl s (Suc i) else []))"
  by pat_completeness auto
termination
  by (relation "measure (\<lambda>(r, repl, s, i). Suc (length s) - i)") auto

definition re_sub :: "regex \<Rightarrow> string \<Rightarrow> string \<Rightarrow> string" where
  "re_sub r repl s = sub_from r repl s 0"

text \<open>The literal characters of a pattern in sequence, then the rest of the pattern.\<close>

fun lits :: "string \<Rightarrow> regex \<Rightarrow> regex" where
  "lits [] r = r"
| "lits (c # cs) r = Seq (One (Lit c)) (lits cs r)"

definition pat_label :: regex where     \<comment> \<open>\<open>\S*:\S*\s?\<close>\<close>
  "pat_label = Seq (Star NonSpace) (Seq (One (Lit CHR '':'')) (Seq (Star NonSpace) (Opt Space)))"

definition pat_code :: regex where      \<comment> \<open>\<open>\S*-\S-\S*\s?\<close>\<close>
  "pat_code =
     Seq (Star NonSpace) (Seq (One (Lit CHR ''-'')) (Seq (One NonSpace)
       (Seq (One (Lit CHR ''-'')) (Seq (Star NonSpace) (Opt Space)))))"

definition pat_url :: regex where       \<comment> \<open>\<open>^https?:\/\/.*[\r\n]*\<close>\<close>
  "pat_url =
     Seq Bol (lits ''http'' (Seq (Opt (Lit CHR ''s'')) (lits ''://'' (Seq (Star Dot) (Star CrLf)))))"

definition pat_email :: regex where     \<comment> \<open>\<open>\S*@\S*\s?\<close>\<close>
  "pat_email = Seq (Star NonSpace) (Seq (One (Lit CHR ''@'')) (Seq (Star NonSpace) (Opt Space)))"

definition pat_special :: regex where   \<comment> \<open>\<open>[^a-zA-Z0-9]+\<close>\<close>
  "pat_special = Plus NonAlnum"

definition pat_number :: regex where    \<comment> \<open>\<open>^\d+\s|\s\d+\s|\s\d+$\<close>\<close>
  "pat_number =
     Alt (Seq Bol (Seq (Plus Digit) (One Space)))
       (Alt (Seq (One Space) (Seq (Plus Digit) (One Space)))
            (Seq (One Space) (Seq (Plus Digit) Eol)))"

definition pat_spaces :: regex where    \<comment> \<open>\<open> +\<close>\<close>
  "pat_spaces = Plus (Lit CHR '' '')"

subsection \<open>The body-cleaning cell\<close>

text \<open>
  \<open>pdraw['Body'].str.split(sep).str[0]\<close>: the part of the body before the first
  occurrence of the separator, the whole body when it does not occur. pandas passes a
  missing body (\<open>None\<close>) through both \<open>.str\<close> steps as a missing value.
\<close>

fun before_first :: "string \<Rightarrow> string \<Rightarrow> string" where
  "before_first sep [] = []"
| "before_first sep (c # cs) = (if prefix sep (c # cs) then [] else c # before_first sep cs)"

definition reply_delimiter :: string where
  "reply_delimiter =
     [CHR 0x0D, CHR 0x0A, CHR 0x0D, CHR 0x0A, CHR '' '', CHR 0x0D, CHR 0x0A, CHR 0x0D, CHR 0x0A]
       @ ''From''"

definition split_top :: "string option \<Rightarrow> string option" where
  "split_top body = map_option (before_first reply_delimiter) body"

text \<open>
  \<open>pdraw['Body'].apply(lambda x: re.sub(pattern, ' ', x))\<close> on one body: \<open>re.sub\<close>
  raises TypeError (expected string or bytes-like object) on a missing value.
\<close>

definition apply_sub :: "regex \<Rightarrow> string option \<Rightarrow> py_error + string" where
  "apply_sub r body = (case body of None \<Rightarrow> Inl TypeError | Some x \<Rightarrow> Inr (re_sub r '' '' x))"

definition then_sub :: "regex \<Rightarrow> py_error + string \<Rightarrow> py_error + string" where
  "then_sub r res = (case res of Inl e \<Rightarrow> Inl e | Inr x \<Rightarrow> apply_sub r (Some x))"

text \<open>The eight assignments of the cell, in their order, on the body of one message.\<close>

definition clean_body :: "string option \<Rightarrow> py_error + string" where
  "clean_body body =
     then_sub pat_spaces
       (then_sub pat_number
         (then_sub pat_special
           (then_sub pat_email
             (then_sub pat_url
               (then_sub pat_code
                 (apply_sub pat_label (split_top body)))))))"

subsection \<open>The tagging cells: \<open>emaildict\<close> and the loop over the inbox\<close>

text \<open>
  \<^verbatim>\<open>
  emaildict={}
  for item in related_email_indices:
      dictvalue=pdraw.loc[item,'EmailID']
      emaildict[dictvalue]=query
  \<close>
  A dict keeps one entry per key, in the order of first insertion: an association list
  under \<open>AList.update\<close>. \<open>pdraw.loc\<close> raises KeyError for a row that does not exist.
\<close>

fun build_emaildict ::
  "string list \<Rightarrow> string \<Rightarrow> nat list \<Rightarrow> (string \<times> string) list
     \<Rightarrow> py_error + (string \<times> string) list" where
  "build_emaildict email_ids query [] emaildict = Inr emaildict"
| "build_emaildict email_ids query (item # items) emaildict =
     (if item < length email_ids
      then build_emaildict email_ids query items
             (AList.update (email_ids ! item) query emaildict)
      else Inl KeyError)"

text \<open>
  \<^verbatim>\<open>
  for message in messages:
      for key in emaildict:
          if message.EntryID==key:
              message.Categories=emaildict.get(key)
              message.Save()
  \<close>
  A message of the store is its \<open>EntryID\<close> and its saved \<open>Categories\<close>. Whether
  \<open>Save\<close> succeeds is the store's answer, \<open>save_fails\<close> of the message's id; a failed
  \<open>Save\<close> raises a COM error and leaves the stored message as it was. The loops have
  no \<open>try\<close>: an error ends them. The inner loop walks the entries of the dict, and
  \<open>emaildict.get(key)\<close> is the value of the entry.
\<close>

record message =
  EntryID :: string
  Categories :: string

fun tag_message ::
  "(string \<Rightarrow> bool) \<Rightarrow> (string \<times> string) list \<Rightarrow> message \<Rightarrow> py_error + message" where
  "tag_message save_fails [] m = Inr m"
| "tag_message save_fails ((key, label) # emaildict) m =
     (if EntryID m = key
      then (if save_fails (EntryID m) then Inl ComError
            else tag_message save_fails emaildict (m\<lparr>Categories := label\<rparr>))
      else tag_message save_fails emaildict m)"

text \<open>
  The outer loop returns the store as the loop leaves it, and the error that ended the
  loop, if one did.
\<close>

fun tag_messages ::
  "(string \<Rightarrow> bool) \<Rightarrow> (string \<times> string) list \<Rightarrow> message list
     \<Rightarrow> message list \<times> py_error option" where
  "tag_messages save_fails emaildict [] = ([], None)"
| "tag_messages save_fails emaildict (m # ms) =
     (case tag_message save_fails emaildict m of
        Inl e \<Rightarrow> (m # ms, Some e)
      | Inr m' \<Rightarrow>
          (case tag_messages save_fails emaildict ms of (ms', r) \<Rightarrow> (m' # ms', r)))"

subsection \<open>The vectorizer: \<open>TfidfVectorizer\<close> with the notebook's parameters\<close>

text \<open>
  The notebook constructs \<open>TfidfVectorizer(stop_words=stopwords, analyzer='word',
  strip_accents='unicode')\<close> and leaves every other parameter at scikit-learn's
  default: raw term counts (\<open>sublinear_tf=False\<close>), the smoothed inverse document
  frequency (\<open>use_idf=True\<close>, \<open>smooth_idf=True\<close>) and Euclidean normalisation of each
  row (\<open>norm='l2'\<close>). The functions below are the library's documented computation
  for these parameters, over the reals. A document is the list of the terms the analyzer
  keeps of a cleaned body (lower case, accents stripped, stop words removed); the
  vocabulary is the sorted list of the distinct terms of the corpus.
\<close>

definition vocabulary :: "string list list \<Rightarrow> string list" where
  "vocabulary docs = sort (remdups (concat docs))"

definition tf :: "string list \<Rightarrow> string \<Rightarrow> nat" where
  "tf d t = count_list d t"

definition df :: "string list list \<Rightarrow> string \<Rightarrow> nat" where
  "df docs t = length (filter (\<lambda>d. t \<in> set d) docs)"

definition idf_of :: "nat \<Rightarrow> nat \<Rightarrow> real" where
  "idf_of n k = ln ((1 + real n) / (1 + real k)) + 1"

definition idf :: "string list list \<Rightarrow> string \<Rightarrow> real" where
  "idf docs t = idf_of (length docs) (df docs t)"

definition tfidf_row :: "string list list \<Rightarrow> string list \<Rightarrow> real list" where
  "tfidf_row docs d = map (\<lambda>t. real (tf d t) * idf docs t) (vocabulary docs)"

definition l2_norm :: "real list \<Rightarrow> real" where
  "l2_norm v = sqrt (\<Sum>x\<leftarrow>v. x\<^sup>2)"

text \<open>
  \<open>sklearn.preprocessing.normalize\<close>: a row of norm 0 is left as it is. The square
  root and the division are the exact ones of the reals. The library computes them in
  float64, where the norm of a normalised row and a dot product of two such rows can
  differ from the exact value in the last bit; no statement below is about those bits.
\<close>

definition normalize_l2 :: "real list \<Rightarrow> real list" where
  "normalize_l2 v = (if l2_norm v = 0 then v else map (\<lambda>x. x / l2_norm v) v)"

text \<open>
  \<open>x = vectorizer.fit_transform(pdraw['Body'])\<close>: the rows of the fitted matrix.
  scikit-learn raises ValueError (empty vocabulary) when no document has a term.
\<close>

definition fitted_rows :: "string list list \<Rightarrow> real list list" where
  "fitted_rows docs = map (\<lambda>d. normalize_l2 (tfidf_row docs d)) docs"

definition fit_transform :: "string list list \<Rightarrow> py_error + real list list" where
  "fit_transform docs =
     (if vocabulary docs = [] then Inl ValueError else Inr (fitted_rows docs))"

text \<open>
  \<open>vec_query = vectorizer.transform([query])\<close>: the query's row in the fitted
  vocabulary, with the fitted inverse document frequencies.
\<close>

definition transform :: "string list list \<Rightarrow> string list \<Rightarrow> real list" where
  "transform docs query = normalize_l2 (tfidf_row docs query)"

text \<open>
  Cosine similarity, as the specification names the score: the dot product of the two
  vectors after each is scaled to unit length (a zero vector stays zero, as in
  scikit-learn's \<open>cosine_similarity\<close>). The notebook computes \<open>linear_kernel\<close>, the
  plain dot product, instead.
\<close>

definition cosine_similarity :: "real list \<Rightarrow> real list \<Rightarrow> real" where
  "cosine_similarity u v = dot (normalize_l2 u) (normalize_l2 v)"

section \<open>Properties\<close>

subsection \<open>Sorting and slicing\<close>

lemma argsort_length: "length (argsort a) = length a"
  by (simp add: argsort_def)

lemma argsort_set: "set (argsort a) = {0..<length a}"
  by (simp add: argsort_def)

lemma argsort_distinct: "distinct (argsort a)"
  by (simp add: argsort_def)

lemma argsort_sorted: "sorted (map (\<lambda>i. a ! i) (argsort a))"
  by (simp add: argsort_def)

lemma rev_argsort_descending: "sorted_wrt (\<lambda>i j. a ! j \<le> a ! i) (rev (argsort a))"
proof -
  have "sorted_wrt (\<lambda>i j. a ! i \<le> a ! j) (argsort a)"
    using argsort_sorted [of a] by (simp add: sorted_map)
  then show ?thesis by (simp add: sorted_wrt_rev)
qed

lemma topn_ids_length: "length (topn_ids row top_n) = min top_n (length row)"
  by (simp add: topn_ids_def argsort_length min.commute)

lemma topn_ids_distinct: "distinct (topn_ids row top_n)"
  by (simp add: topn_ids_def argsort_distinct)

lemma topn_ids_set: "set (topn_ids row top_n) \<subseteq> {0..<length row}"
proof -
  have "set (topn_ids row top_n) \<subseteq> set (rev (argsort row))"
    unfolding topn_ids_def by (rule set_take_subset)
  then show ?thesis by (simp add: argsort_set)
qed

lemma topn_ids_descending: "sorted_wrt (\<lambda>i j. row ! j \<le> row ! i) (topn_ids row top_n)"
  unfolding topn_ids_def by (rule sorted_wrt_take) (rule rev_argsort_descending)

lemma topn_ids_all: "length row \<le> top_n \<Longrightarrow> set (topn_ids row top_n) = {0..<length row}"
  by (simp add: topn_ids_def argsort_length argsort_set)

lemma topn_ids_largest:
  assumes "j < length row" "j \<notin> set (topn_ids row top_n)" "i \<in> set (topn_ids row top_n)"
  shows "row ! j \<le> row ! i"
proof -
  let ?ys = "rev (argsort row)"
  have "j \<in> set ?ys" using assms(1) by (simp add: argsort_set)
  then have "j \<in> set (take top_n ?ys) \<union> set (drop top_n ?ys)"
    by (metis append_take_drop_id set_append)
  with assms(2) have j: "j \<in> set (drop top_n ?ys)" by (simp add: topn_ids_def)
  have "sorted_wrt (\<lambda>i j. row ! j \<le> row ! i) (take top_n ?ys @ drop top_n ?ys)"
    using rev_argsort_descending [of row] by simp
  then have "\<forall>x\<in>set (take top_n ?ys). \<forall>y\<in>set (drop top_n ?ys). row ! y \<le> row ! x"
    unfolding sorted_wrt_append by blast
  with j assms(3) show ?thesis by (simp add: topn_ids_def)
qed


lemma count_nonzero_argsort:
  "count_nonzero a = length (filter (\<lambda>i. a ! i \<noteq> 0) (rev (argsort a)))"
proof -
  have "filter (\<lambda>v. v \<noteq> 0) a = filter (\<lambda>v. v \<noteq> 0) (map (\<lambda>i. a ! i) [0..<length a])"
    by (simp add: map_nth)
  then have "count_nonzero a = length (filter (\<lambda>i. a ! i \<noteq> 0) [0..<length a])"
    by (simp add: count_nonzero_def filter_map comp_def)
  also have "\<dots> = length (filter (\<lambda>i. a ! i \<noteq> 0) (argsort a))"
    by (simp add: argsort_def filter_sort)
  also have "\<dots> = length (filter (\<lambda>i. a ! i \<noteq> 0) (rev (argsort a)))"
    by (simp flip: rev_filter)
  finally show ?thesis .
qed

lemma count_nonzero_le: "count_nonzero a \<le> length a"
  by (simp add: count_nonzero_def)

lemma descending_filter_takeWhile:
  fixes f :: "'b \<Rightarrow> 'a::{linorder,zero}"
  assumes "sorted_wrt (\<lambda>i j. f j \<le> f i) ys" "\<forall>y\<in>set ys. 0 \<le> f y"
  shows "filter (\<lambda>y. f y \<noteq> 0) ys = takeWhile (\<lambda>y. f y \<noteq> 0) ys"
  using assms
proof (induction ys)
  case Nil
  then show ?case by simp
next
  case (Cons y ys)
  show ?case
  proof (cases "f y = 0")
    case True
    have "\<forall>z\<in>set ys. f z = 0"
    proof
      fix z assume z: "z \<in> set ys"
      with Cons.prems have "f z \<le> f y" "0 \<le> f z" by auto
      with True show "f z = 0" by simp
    qed
    then have "filter (\<lambda>y. f y \<noteq> 0) ys = []" by (simp add: filter_empty_conv)
    with True show ?thesis by simp
  next
    case False
    with Cons show ?thesis by simp
  qed
qed

lemma slice_to_rev_neg:
  assumes "0 < x" "x \<le> length a"
  shows "slice_to_rev a (- int x) = take (x - 1) (rev a)"
proof -
  have "nat (max (- int x + int (length a)) (- 1) + 1) = length a - x + 1"
    using assms by (simp add: max_def)
  then have "slice_to_rev a (- int x) = rev (drop (length a - x + 1) a)"
    using assms by (simp add: slice_to_rev_def Let_def)
  also have "\<dots> = take (x - 1) (rev a)"
  proof -
    have "length a - (x - 1) = length a - x + 1" using assms by linarith
    then show ?thesis by (simp add: take_rev)
  qed
  finally show ?thesis .
qed

lemma related_email_indices_take:
  assumes "0 < count_nonzero cosine_sim"
  shows "related_email_indices cosine_sim
         = take (count_nonzero cosine_sim - 1) (rev (argsort cosine_sim))"
  using assms count_nonzero_le [of cosine_sim]
  by (simp add: related_email_indices_def Let_def slice_to_rev_neg argsort_length)

lemma related_email_indices_positive:
  fixes cosine_sim :: "'a::{linorder,zero} list"
  assumes pos: "0 < count_nonzero cosine_sim"
    and nonneg: "\<forall>v\<in>set cosine_sim. 0 \<le> v"
    and i: "i \<in> set (related_email_indices cosine_sim)"
  shows "i < length cosine_sim \<and> 0 < cosine_sim ! i"
proof -
  let ?ys = "rev (argsort cosine_sim)"
  let ?P = "\<lambda>i. cosine_sim ! i \<noteq> 0"
  have ys: "\<forall>y\<in>set ?ys. 0 \<le> cosine_sim ! y"
    using nonneg by (simp add: argsort_set)
  have "filter ?P ?ys = takeWhile ?P ?ys"
    by (rule descending_filter_takeWhile [OF rev_argsort_descending ys])
  then have "count_nonzero cosine_sim = length (takeWhile ?P ?ys)"
    by (simp add: count_nonzero_argsort)
  then have "take (count_nonzero cosine_sim) ?ys = takeWhile ?P ?ys"
    by (simp flip: takeWhile_eq_take)
  moreover have "set (take (count_nonzero cosine_sim - 1) ?ys)
                 \<subseteq> set (take (count_nonzero cosine_sim) ?ys)"
    by (rule set_take_subset_set_take) simp
  ultimately have "i \<in> set (takeWhile ?P ?ys)"
    using i related_email_indices_take [OF pos] by auto
  then have "i \<in> set ?ys" "?P i"
    by (auto dest: set_takeWhileD)
  then have "i < length cosine_sim" "cosine_sim ! i \<noteq> 0"
    by (simp_all add: argsort_set)
  moreover from this nonneg have "0 \<le> cosine_sim ! i" by simp
  ultimately show ?thesis by simp
qed

lemma related_email_indices_distinct:
  "0 < count_nonzero cosine_sim \<Longrightarrow> distinct (related_email_indices cosine_sim)"
  by (simp add: related_email_indices_take argsort_distinct)

lemma related_email_indices_descending:
  "0 < count_nonzero cosine_sim \<Longrightarrow>
   sorted_wrt (\<lambda>i j. cosine_sim ! j \<le> cosine_sim ! i) (related_email_indices cosine_sim)"
  by (simp add: related_email_indices_take sorted_wrt_take rev_argsort_descending)


text \<open>
  The slice keeps one index fewer than there are non-zero scores; and when no score is
  non-zero, \<open>-x\<close> is 0 and the slice keeps every index but the first of the sorted ones.
\<close>

lemma related_email_indices_length:
  "0 < count_nonzero cosine_sim \<Longrightarrow>
   length (related_email_indices cosine_sim) = count_nonzero cosine_sim - 1"
  using count_nonzero_le [of cosine_sim]
  by (simp add: related_email_indices_take argsort_length)

lemma related_email_indices_no_match:
  "count_nonzero cosine_sim = 0 \<Longrightarrow>
   related_email_indices cosine_sim = rev (drop 1 (argsort cosine_sim))"
  by (cases "argsort cosine_sim")
    (simp_all add: related_email_indices_def slice_to_rev_def Let_def)

subsection \<open>The query cells\<close>

lemma dot_nonneg:
  fixes u v :: "'a::linordered_field list"
  assumes "\<forall>a\<in>set u. 0 \<le> a" "\<forall>b\<in>set v. 0 \<le> b"
  shows "0 \<le> dot u v"
proof -
  have "0 \<le> a * b" if "(a, b) \<in> set (zip u v)" for a b
    using that assms by (meson set_zip_leftD set_zip_rightD mult_nonneg_nonneg)
  then have "\<forall>x\<in>set (map (\<lambda>(a, b). a * b) (zip u v)). 0 \<le> x"
    by auto
  then show ?thesis
    unfolding dot_def by (intro sum_list_nonneg) blast
qed

text \<open>
  What the query cells return when the query vector and the matrix have no negative
  entry and \<open>x\<close> documents, at least one, have a non-zero score: \<open>x - 1\<close> distinct
  documents, each with a score strictly greater than 0, in descending order of score,
  and no document left out has a larger score than a document returned. So the cells
  return all documents with a positive score but one with the smallest such score.
\<close>

lemma search_returns_all_but_one:
  fixes vec_query :: "'a::linordered_field list"
  assumes shape: "list_all (\<lambda>row. length row = length vec_query) x_dense"
    and q: "\<forall>a\<in>set vec_query. 0 \<le> a"
    and X: "\<forall>row\<in>set x_dense. \<forall>b\<in>set row. 0 \<le> b"
    and some: "\<exists>row\<in>set x_dense. dot vec_query row \<noteq> 0"
  shows "\<exists>res. search vec_query x_dense = Inr res \<and> distinct res
           \<and> length res = count_nonzero (map (dot vec_query) x_dense) - 1
           \<and> (\<forall>i\<in>set res. i < length x_dense \<and> 0 < dot vec_query (x_dense ! i))
           \<and> sorted_wrt (\<lambda>i j. dot vec_query (x_dense ! j) \<le> dot vec_query (x_dense ! i)) res
           \<and> (\<forall>j<length x_dense. j \<notin> set res \<longrightarrow>
                 (\<forall>i\<in>set res. dot vec_query (x_dense ! j) \<le> dot vec_query (x_dense ! i)))"
proof -
  let ?sims = "map (dot vec_query) x_dense"
  let ?res = "related_email_indices ?sims"
  from some have rows: "x_dense \<noteq> []" by auto
  from some have cols: "vec_query \<noteq> []" by (auto simp: dot_def)
  have run: "search vec_query x_dense = Inr ?res"
    using shape rows cols by (simp add: search_def linear_kernel_def)
  have pos: "0 < count_nonzero ?sims"
    using some by (auto simp: count_nonzero_def filter_empty_conv)
  have nonneg: "\<forall>v\<in>set ?sims. 0 \<le> v"
    using q X by (auto intro: dot_nonneg)
  have in_range: "\<forall>i\<in>set ?res. i < length x_dense \<and> 0 < dot vec_query (x_dense ! i)"
  proof
    fix i assume "i \<in> set ?res"
    from related_email_indices_positive [OF pos nonneg this]
    show "i < length x_dense \<and> 0 < dot vec_query (x_dense ! i)" by auto
  qed
  have "sorted_wrt (\<lambda>i j. ?sims ! j \<le> ?sims ! i) ?res"
    by (rule related_email_indices_descending [OF pos])
  then have sorted: "sorted_wrt (\<lambda>i j. dot vec_query (x_dense ! j) \<le> dot vec_query (x_dense ! i)) ?res"
  proof (rule sorted_wrt_mono_rel [rotated])
    fix i j assume "i \<in> set ?res" "j \<in> set ?res" "?sims ! j \<le> ?sims ! i"
    with in_range show "dot vec_query (x_dense ! j) \<le> dot vec_query (x_dense ! i)"
      by simp
  qed
  have top: "?res = topn_ids ?sims (count_nonzero ?sims - 1)"
    by (simp add: related_email_indices_take [OF pos] topn_ids_def)
  have largest: "\<forall>j<length x_dense. j \<notin> set ?res \<longrightarrow>
                   (\<forall>i\<in>set ?res. dot vec_query (x_dense ! j) \<le> dot vec_query (x_dense ! i))"
  proof (intro allI impI ballI)
    fix j i assume j: "j < length x_dense" "j \<notin> set ?res" and i: "i \<in> set ?res"
    from j i have "?sims ! j \<le> ?sims ! i"
      unfolding top by (intro topn_ids_largest) simp_all
    with j(1) i in_range show "dot vec_query (x_dense ! j) \<le> dot vec_query (x_dense ! i)"
      by simp
  qed
  from run related_email_indices_distinct [OF pos] related_email_indices_length [OF pos]
    in_range sorted largest
  show ?thesis by blast
qed

text \<open>
  Claim C1 fails on the code. The cells count the \<open>x\<close> non-zero scores and mean to
  return the documents that have them, but the slice \<open>[:-x:-1]\<close> stops one index
  early. Of five documents, three have a positive score for the query (1, 3/5 and 4/5):
  the cells return two of them, and the document with the score 3/5 is missing. With one
  matching document of three the cells return nothing. With no matching document of
  three, \<open>-x\<close> is 0 and the cells return two documents, both with the score 0.
\<close>

theorem search_misses_a_related_document:
  "search [1, 0] [[1, 0], [0, 1], [3/5, 4/5], [0, 1], [4/5, 3/5 :: rat]] = Inr [0, 4]
   \<and> 0 < dot [1, 0] ([[1, 0], [0, 1], [3/5, 4/5], [0, 1], [4/5, 3/5 :: rat]] ! 2)
   \<and> 2 \<notin> set [0, 4 :: nat]
   \<and> search [1, 0] [[0, 1], [1, 0], [0, 1 :: rat]] = Inr []
   \<and> 0 < dot [1, 0] ([[0, 1], [1, 0], [0, 1 :: rat]] ! 1)
   \<and> (\<exists>res. search [1, 0] [[0, 1], [0, 1], [0, 1 :: rat]] = Inr res \<and> length res = 2
          \<and> list_all (\<lambda>i. dot [1, 0] ([[0, 1], [0, 1], [0, 1 :: rat]] ! i) = 0) res)"
proof -
  have three: "search [1, 0] [[1, 0], [0, 1], [3/5, 4/5], [0, 1], [4/5, 3/5 :: rat]] = Inr [0, 4]"
    by code_simp
  have one: "search [1, 0] [[0, 1], [1, 0], [0, 1 :: rat]] = Inr []"
    by code_simp
  have none: "search [1, 0] [[0, 1], [0, 1], [0, 1 :: rat]] = Inr [2, 1]"
    by code_simp
  have "\<exists>res. search [1, 0] [[0, 1], [0, 1], [0, 1 :: rat]] = Inr res \<and> length res = 2
          \<and> list_all (\<lambda>i. dot [1, 0] ([[0, 1], [0, 1], [0, 1 :: rat]] ! i) = 0) res"
    unfolding none by (simp add: dot_def)
  with three one show ?thesis by (simp add: dot_def)
qed

subsection \<open>Most frequent words\<close>

text \<open>
  Claim C8, as the code has it. Given a feature name for every column of the row,
  \<open>top_tfidf_feats\<close> returns the (term, weight) pairs of \<open>min(n, |vocabulary|)\<close>
  distinct columns, in descending order of weight; no column left out has a larger
  weight than a column returned; and when \<open>n\<close> is at least the size of the vocabulary
  every column is returned, the zero-weighted ones too. Equal weights are not promised
  in ascending index order.
\<close>

theorem top_tfidf_feats_top_n:
  assumes features: "length row \<le> length features"
  shows "\<exists>ids. top_tfidf_feats row features top_n = Inr (map (\<lambda>i. (features ! i, row ! i)) ids)
           \<and> length ids = min top_n (length row)
           \<and> distinct ids \<and> set ids \<subseteq> {0..<length row}
           \<and> sorted_wrt (\<lambda>i j. row ! j \<le> row ! i) ids
           \<and> (\<forall>j<length row. j \<notin> set ids \<longrightarrow> (\<forall>i\<in>set ids. row ! j \<le> row ! i))
           \<and> (length row \<le> top_n \<longrightarrow> set ids = {0..<length row})"
proof -
  let ?ids = "topn_ids row top_n"
  have "list_all (\<lambda>i. i < length features) ?ids"
    using topn_ids_set [of row top_n] features by (auto simp: list_all_iff)
  then have "top_tfidf_feats row features top_n = Inr (map (\<lambda>i. (features ! i, row ! i)) ?ids)"
    by (simp add: top_tfidf_feats_def Let_def)
  moreover have "\<forall>j<length row. j \<notin> set ?ids \<longrightarrow> (\<forall>i\<in>set ?ids. row ! j \<le> row ! i)"
    using topn_ids_largest by blast
  ultimately show ?thesis
    using topn_ids_length [of row top_n] topn_ids_distinct [of row top_n]
      topn_ids_set [of row top_n] topn_ids_descending [of row top_n]
      topn_ids_all [of row top_n]
    by blast
qed

theorem top_tfidf_feats_top_n_witness:
  "\<exists>ids. top_tfidf_feats [1/4, 0, 1/2 :: rat] [''map'', ''soil'', ''gis''] 2
            = Inr (map (\<lambda>i. ([''map'', ''soil'', ''gis''] ! i, [1/4, 0, 1/2 :: rat] ! i)) ids)
         \<and> length ids = min 2 (length [1/4, 0, 1/2 :: rat])
         \<and> distinct ids \<and> set ids \<subseteq> {0..<length [1/4, 0, 1/2 :: rat]}
         \<and> sorted_wrt (\<lambda>i j. [1/4, 0, 1/2 :: rat] ! j \<le> [1/4, 0, 1/2 :: rat] ! i) ids
         \<and> (\<forall>j<length [1/4, 0, 1/2 :: rat]. j \<notin> set ids
               \<longrightarrow> (\<forall>i\<in>set ids. [1/4, 0, 1/2 :: rat] ! j \<le> [1/4, 0, 1/2 :: rat] ! i))
         \<and> (length [1/4, 0, 1/2 :: rat] \<le> 2 \<longrightarrow> set ids = {0..<length [1/4, 0, 1/2 :: rat]})"
  by (rule top_tfidf_feats_top_n) simp

text \<open>
  Two equal weights come back with the larger vocabulary index first, and asking for more
  terms than the vocabulary has returns the term of weight 0 as well.
\<close>

theorem top_tfidf_feats_ties_and_zeros:
  "top_tfidf_feats [1/2, 1/2 :: rat] [''gis'', ''map''] 2 = Inr [(''map'', 1/2), (''gis'', 1/2)]
   \<and> top_tfidf_feats [0, 1/2 :: rat] [''gis'', ''map''] 3 = Inr [(''map'', 1/2), (''gis'', 0)]"
proof
  show "top_tfidf_feats [1/2, 1/2 :: rat] [''gis'', ''map''] 2 = Inr [(''map'', 1/2), (''gis'', 1/2)]"
    by code_simp
  show "top_tfidf_feats [0, 1/2 :: rat] [''gis'', ''map''] 3 = Inr [(''map'', 1/2), (''gis'', 0)]"
    by code_simp
qed

text \<open>
  Claim C7 fails on the code: \<open>if grp_ids:\<close> is false for the empty list, so an empty
  group is ranked like a missing one, over every document of the matrix. On a matrix of
  two documents the empty group gets both terms with their means over the two documents.
\<close>

theorem top_mean_feats_empty_group:
  "top_mean_feats ncols X features (Some []) min_tfidf top_n
     = top_mean_feats ncols X features None min_tfidf top_n
   \<and> top_mean_feats 2 [[1/2, 0], [0, 1/4 :: rat]] [''gis'', ''map''] (Some []) (1/10) 25
     = Inr (Some [(''gis'', 1/4), (''map'', 1/8)])"
proof
  show "top_mean_feats ncols X features (Some []) min_tfidf top_n
     = top_mean_feats ncols X features None min_tfidf top_n"
    by (simp add: top_mean_feats_def truthy_def)
  show "top_mean_feats 2 [[1/2, 0], [0, 1/4 :: rat]] [''gis'', ''map''] (Some []) (1/10) 25
     = Inr (Some [(''gis'', 1/4), (''map'', 1/8)])"
    by code_simp
qed

subsection \<open>The body-cleaning cell\<close>

text \<open>
  Claim C2 fails on the code: the pattern for numeric tokens consumes the space that
  separates two numbers, so the second of two adjacent numbers survives the first pass
  and is removed by the second one.
\<close>

theorem clean_body_not_idempotent:
  "clean_body (Some ''a 1 2 b'') = Inr ''a 2 b'' \<and> clean_body (Some ''a 2 b'') = Inr ''a b''"
proof
  show "clean_body (Some ''a 1 2 b'') = Inr ''a 2 b''" by code_simp
  show "clean_body (Some ''a 2 b'') = Inr ''a b''" by code_simp
qed

text \<open>
  Claim C3, as the code has it: the cell cleans every body that is a string without
  raising, and the empty body gives the empty string.
\<close>

theorem clean_body_present:
  "(\<exists>cleaned. clean_body (Some x) = Inr cleaned) \<and> clean_body (Some []) = Inr []"
proof
  show "\<exists>cleaned. clean_body (Some x) = Inr cleaned"
    by (simp add: clean_body_def then_sub_def apply_sub_def split_top_def)
  show "clean_body (Some []) = Inr []" by code_simp
qed

text \<open>
  A missing body is not turned into the empty string: the first \<open>re.sub\<close> raises
  TypeError.
\<close>

theorem clean_body_missing_raises: "clean_body None = Inl TypeError"
  by (simp add: clean_body_def then_sub_def apply_sub_def split_top_def)

subsection \<open>The tagging cells\<close>

lemma update_labels:
  "\<forall>p\<in>set al. snd p = v \<Longrightarrow> \<forall>p\<in>set (AList.update k v al). snd p = v"
  by (induction al) auto

lemma build_emaildict_entries:
  assumes "build_emaildict email_ids query items d0 = Inr d"
    and "\<forall>p\<in>set d0. snd p = query"
  shows "(\<forall>p\<in>set d. snd p = query)
         \<and> fst ` set d = fst ` set d0 \<union> (\<lambda>i. email_ids ! i) ` set items"
  using assms
proof (induction items arbitrary: d0)
  case Nil
  then show ?case by simp
next
  case (Cons item items)
  from Cons.prems(1) have item: "item < length email_ids"
    by (simp split: if_splits)
  let ?d1 = "AList.update (email_ids ! item) query d0"
  from Cons.prems(1) item have run: "build_emaildict email_ids query items ?d1 = Inr d"
    by simp
  have labels: "\<forall>p\<in>set ?d1. snd p = query"
    using Cons.prems(2) by (rule update_labels)
  from Cons.IH [OF run labels] show ?case
    by (auto simp: dom_update)
qed

lemma tag_message_one_label:
  assumes "\<forall>p\<in>set d. snd p = query"
  shows "tag_message save_fails d m =
           (if EntryID m \<in> fst ` set d
            then (if save_fails (EntryID m) then Inl ComError
                  else Inr (m\<lparr>Categories := query\<rparr>))
            else Inr m)"
  using assms
proof (induction d arbitrary: m)
  case Nil
  then show ?case by simp
next
  case (Cons p d)
  obtain key label where p: "p = (key, label)" by (cases p)
  with Cons.prems have label: "label = query" and rest: "\<forall>p\<in>set d. snd p = query"
    by auto
  show ?case
    using Cons.IH [OF rest, of m] Cons.IH [OF rest, of "m\<lparr>Categories := query\<rparr>"]
    by (auto simp: p label)
qed

lemma tag_messages_no_failure:
  assumes "\<forall>p\<in>set d. snd p = query"
    and "\<forall>m\<in>set ms. EntryID m \<in> fst ` set d \<longrightarrow> \<not> save_fails (EntryID m)"
  shows "tag_messages save_fails d ms
         = (map (\<lambda>m. if EntryID m \<in> fst ` set d then m\<lparr>Categories := query\<rparr> else m) ms, None)"
  using assms(2)
  by (induction ms) (simp_all add: tag_message_one_label [OF assms(1)])

lemma tag_messages_failure:
  assumes "\<forall>p\<in>set d. snd p = query"
    and "\<forall>m\<in>set before. EntryID m \<in> fst ` set d \<longrightarrow> \<not> save_fails (EntryID m)"
    and "EntryID m \<in> fst ` set d" "save_fails (EntryID m)"
  shows "tag_messages save_fails d (before @ m # after)
         = (map (\<lambda>m. if EntryID m \<in> fst ` set d then m\<lparr>Categories := query\<rparr> else m) before
              @ m # after, Some ComError)"
  using assms(2)
  by (induction before) (simp_all add: tag_message_one_label [OF assms(1)] assms(3,4))

text \<open>
  Claim C9, as the code has it. The tagging loop has no \<open>try\<close>: a failed \<open>Save\<close> is
  neither caught nor logged. While no write fails, every message whose id is among the
  related emails gets the query as its category and every other message stays as it is.
  The first failing \<open>Save\<close> ends the loop with the error: the messages before it keep
  their new category, the failing message and all messages after it are left untouched.
\<close>

theorem tagging_stops_at_first_failed_save:
  assumes build: "build_emaildict email_ids query related [] = Inr emaildict"
    and before: "\<forall>m\<in>set before. EntryID m \<in> (\<lambda>i. email_ids ! i) ` set related
                   \<longrightarrow> \<not> save_fails (EntryID m)"
  shows "tag_messages save_fails emaildict before
           = (map (\<lambda>m. if EntryID m \<in> (\<lambda>i. email_ids ! i) ` set related
                        then m\<lparr>Categories := query\<rparr> else m) before, None)
         \<and> (EntryID failing \<in> (\<lambda>i. email_ids ! i) ` set related \<and> save_fails (EntryID failing) \<longrightarrow>
              tag_messages save_fails emaildict (before @ failing # after)
                = (map (\<lambda>m. if EntryID m \<in> (\<lambda>i. email_ids ! i) ` set related
                             then m\<lparr>Categories := query\<rparr> else m) before
                     @ failing # after, Some ComError))"
proof -
  from build_emaildict_entries [OF build]
  have labels: "\<forall>p\<in>set emaildict. snd p = query"
    and keys: "fst ` set emaildict = (\<lambda>i. email_ids ! i) ` set related"
    by simp_all
  show ?thesis
    using tag_messages_no_failure [OF labels, of before save_fails]
      tag_messages_failure [OF labels, of before save_fails failing after] before
    unfolding keys by blast
qed

theorem tagging_stops_at_first_failed_save_witness:
  "tag_messages (\<lambda>k. k = ''id2'') [(''id1'', ''bctw''), (''id2'', ''bctw'')]
     [\<lparr>EntryID = ''id1'', Categories = ''''\<rparr>]
     = ([\<lparr>EntryID = ''id1'', Categories = ''bctw''\<rparr>], None)
   \<and> tag_messages (\<lambda>k. k = ''id2'') [(''id1'', ''bctw''), (''id2'', ''bctw'')]
       ([\<lparr>EntryID = ''id1'', Categories = ''''\<rparr>] @ \<lparr>EntryID = ''id2'', Categories = ''''\<rparr>
          # [\<lparr>EntryID = ''id3'', Categories = ''''\<rparr>])
     = ([\<lparr>EntryID = ''id1'', Categories = ''bctw''\<rparr>] @ \<lparr>EntryID = ''id2'', Categories = ''''\<rparr>
          # [\<lparr>EntryID = ''id3'', Categories = ''''\<rparr>], Some ComError)"
proof -
  have build: "build_emaildict [''id1'', ''id2'', ''id3''] ''bctw'' [0, 1] []
                 = Inr [(''id1'', ''bctw''), (''id2'', ''bctw'')]"
    by simp
  have before: "\<forall>m\<in>set [\<lparr>EntryID = ''id1'', Categories = ''''\<rparr>].
                  EntryID m \<in> (\<lambda>i. [''id1'', ''id2'', ''id3''] ! i) ` set [0, 1]
                    \<longrightarrow> \<not> (\<lambda>k. k = ''id2'') (EntryID m)"
    by simp
  show ?thesis
    using tagging_stops_at_first_failed_save [OF build before,
        of "\<lparr>EntryID = ''id2'', Categories = ''''\<rparr>" "[\<lparr>EntryID = ''id3'', Categories = ''''\<rparr>]"]
    by simp
qed

text \<open>
  Two related messages, the write of the first one fails: the loop ends with the error
  and the second message, whose write would succeed, is never tagged.
\<close>

theorem tagging_aborts_on_failed_save:
  "build_emaildict [''id1'', ''id2''] ''bctw'' [0, 1] []
     = Inr [(''id1'', ''bctw''), (''id2'', ''bctw'')]
   \<and> tag_messages (\<lambda>k. k = ''id1'') [(''id1'', ''bctw''), (''id2'', ''bctw'')]
     [\<lparr>EntryID = ''id1'', Categories = ''''\<rparr>, \<lparr>EntryID = ''id2'', Categories = ''''\<rparr>]
   = ([\<lparr>EntryID = ''id1'', Categories = ''''\<rparr>, \<lparr>EntryID = ''id2'', Categories = ''''\<rparr>],
      Some ComError)"
  by simp

subsection \<open>The vectorizer\<close>

lemma idf_of_decreasing: "k1 < k2 \<Longrightarrow> idf_of n k2 < idf_of n k1"
proof -
  assume "k1 < k2"
  then have "(1 + real n) / (1 + real k2) < (1 + real n) / (1 + real k1)"
    by (intro divide_strict_left_mono) (auto simp: add_pos_nonneg)
  moreover have "0 < (1 + real n) / (1 + real k2)"
    by (simp add: add_pos_nonneg)
  ultimately show ?thesis
    by (simp add: idf_of_def)
qed

lemma df_le_length: "df docs t \<le> length docs"
  by (simp add: df_def)

lemma idf_ge_1: "1 \<le> idf docs t"
proof -
  have "1 \<le> (1 + real (length docs)) / (1 + real (df docs t))"
    using df_le_length [of docs t] by (simp add: add_pos_nonneg)
  then have "0 \<le> ln ((1 + real (length docs)) / (1 + real (df docs t)))"
    by simp
  then show ?thesis by (simp add: idf_def idf_of_def)
qed

lemma tfidf_row_nonneg: "\<forall>x\<in>set (tfidf_row docs d). 0 \<le> x"
proof -
  have "0 \<le> real (tf d t) * idf docs t" for t
    using idf_ge_1 [of docs t] by (intro mult_nonneg_nonneg) simp_all
  then show ?thesis by (auto simp: tfidf_row_def)
qed

lemma tfidf_row_length: "length (tfidf_row docs d) = length (vocabulary docs)"
  by (simp add: tfidf_row_def)

lemma sum_squares_nonneg: "0 \<le> (\<Sum>x\<leftarrow>v. x\<^sup>2)" for v :: "real list"
  by (rule sum_list_nonneg) auto

lemma l2_norm_nonneg: "0 \<le> l2_norm v"
  by (simp add: l2_norm_def sum_squares_nonneg)

lemma l2_norm_zero_iff: "l2_norm v = 0 \<longleftrightarrow> v = replicate (length v) 0"
proof -
  have "(\<Sum>x\<leftarrow>v. x\<^sup>2) = 0 \<longleftrightarrow> (\<forall>x\<in>set v. x = 0)"
    by (induction v) (auto simp: add_nonneg_eq_0_iff sum_squares_nonneg)
  also have "\<dots> \<longleftrightarrow> v = replicate (length v) 0"
    by (induction v) auto
  finally show ?thesis by (simp add: l2_norm_def)
qed

lemma l2_norm_scale:
  assumes "0 < c"
  shows "l2_norm (map (\<lambda>x. x / c) v) = l2_norm v / c"
proof -
  have "(\<Sum>x\<leftarrow>v. (x / c)\<^sup>2) = (\<Sum>x\<leftarrow>v. x\<^sup>2) / c\<^sup>2"
    by (induction v) (simp_all add: power_divide add_divide_distrib)
  then show ?thesis
    using assms by (simp add: l2_norm_def comp_def real_sqrt_divide)
qed

lemma normalize_l2_length: "length (normalize_l2 v) = length v"
  by (simp add: normalize_l2_def)

lemma normalize_l2_unit_or_zero:
  "l2_norm (normalize_l2 v) = 1 \<or> normalize_l2 v = replicate (length v) 0"
proof (cases "l2_norm v = 0")
  case True
  then show ?thesis using l2_norm_zero_iff [of v] by (simp add: normalize_l2_def)
next
  case False
  with l2_norm_nonneg [of v] have "0 < l2_norm v" by simp
  then show ?thesis by (simp add: normalize_l2_def l2_norm_scale)
qed

lemma normalize_l2_nonneg:
  "\<forall>x\<in>set v. 0 \<le> x \<Longrightarrow> \<forall>x\<in>set (normalize_l2 v). 0 \<le> x"
  using l2_norm_nonneg [of v] by (auto simp: normalize_l2_def)

lemma normalize_l2_idem: "normalize_l2 (normalize_l2 v) = normalize_l2 v"
proof (cases "l2_norm v = 0")
  case True
  then show ?thesis by (simp add: normalize_l2_def)
next
  case False
  with l2_norm_nonneg [of v] have pos: "0 < l2_norm v" by simp
  then have "l2_norm (normalize_l2 v) = 1"
    by (simp add: normalize_l2_def l2_norm_scale)
  then show ?thesis by (simp add: normalize_l2_def [of "normalize_l2 v"])
qed

lemma dot_le_squares:
  fixes u v :: "real list"
  assumes "length u = length v"
  shows "2 * dot u v \<le> (\<Sum>x\<leftarrow>u. x\<^sup>2) + (\<Sum>x\<leftarrow>v. x\<^sup>2)"
  using assms
proof (induction u v rule: list_induct2)
  case Nil
  then show ?case by (simp add: dot_def)
next
  case (Cons a u b v)
  have "2 * (a * b) \<le> a\<^sup>2 + b\<^sup>2"
    using sum_squares_bound [of a b] by (simp add: mult.assoc)
  with Cons.IH show ?case by (simp add: dot_def algebra_simps)
qed

lemma l2_norm_le_1_squares:
  assumes "l2_norm v = 1 \<or> v = replicate (length v) 0"
  shows "(\<Sum>x\<leftarrow>v. x\<^sup>2) \<le> 1"
proof -
  from assms l2_norm_zero_iff [of v] have "l2_norm v = 1 \<or> l2_norm v = 0" by blast
  then have "(l2_norm v)\<^sup>2 \<le> 1" by auto
  then show ?thesis by (simp add: l2_norm_def sum_squares_nonneg)
qed

lemma dot_unit_le_1:
  assumes "length u = length v"
    and "l2_norm u = 1 \<or> u = replicate (length u) 0"
    and "l2_norm v = 1 \<or> v = replicate (length v) 0"
  shows "dot u v \<le> 1"
  using dot_le_squares [OF assms(1)] l2_norm_le_1_squares [OF assms(2)]
    l2_norm_le_1_squares [OF assms(3)]
  by linarith


lemma fitted_row_unit_or_zero:
  "row \<in> set (fitted_rows docs) \<Longrightarrow> l2_norm row = 1 \<or> row = replicate (length row) 0"
proof -
  assume "row \<in> set (fitted_rows docs)"
  then obtain d where row: "row = normalize_l2 (tfidf_row docs d)"
    by (auto simp: fitted_rows_def)
  show ?thesis
    using normalize_l2_unit_or_zero [of "tfidf_row docs d"]
    unfolding row normalize_l2_length by blast
qed

lemma fitted_row_length:
  "row \<in> set (fitted_rows docs) \<Longrightarrow> length row = length (vocabulary docs)"
  by (auto simp: fitted_rows_def normalize_l2_length tfidf_row_length)

lemma fitted_row_nonneg: "row \<in> set (fitted_rows docs) \<Longrightarrow> \<forall>x\<in>set row. 0 \<le> x"
  using normalize_l2_nonneg [OF tfidf_row_nonneg] by (auto simp: fitted_rows_def)

lemma transform_length: "length (transform docs query) = length (vocabulary docs)"
  by (simp add: transform_def normalize_l2_length tfidf_row_length)

lemma transform_unit_or_zero:
  "l2_norm (transform docs query) = 1
   \<or> transform docs query = replicate (length (transform docs query)) 0"
  using normalize_l2_unit_or_zero [of "tfidf_row docs query"]
  by (simp add: transform_def normalize_l2_length)

lemma transform_nonneg: "\<forall>x\<in>set (transform docs query). 0 \<le> x"
  unfolding transform_def by (rule normalize_l2_nonneg [OF tfidf_row_nonneg])

lemma score_is_cosine:
  assumes "row \<in> set (fitted_rows docs)"
  shows "dot (transform docs query) row = cosine_similarity (transform docs query) row"
proof -
  from assms obtain d where "row = normalize_l2 (tfidf_row docs d)"
    by (auto simp: fitted_rows_def)
  then show ?thesis
    by (simp add: cosine_similarity_def transform_def normalize_l2_idem)
qed

lemma score_bounds:
  assumes "row \<in> set (fitted_rows docs)"
  shows "0 \<le> dot (transform docs query) row \<and> dot (transform docs query) row \<le> 1"
proof
  show "0 \<le> dot (transform docs query) row"
    by (rule dot_nonneg [OF transform_nonneg fitted_row_nonneg [OF assms]])
  have "length (transform docs query) = length row"
    using fitted_row_length [OF assms] by (simp add: transform_length)
  then show "dot (transform docs query) row \<le> 1"
    by (rule dot_unit_le_1 [OF _ transform_unit_or_zero fitted_row_unit_or_zero [OF assms]])
qed

text \<open>
  In exact arithmetic the fitted rows and the query vector are scaled to unit length:
  the row of a document of the corpus has norm 1 when the document has a term and is
  all zero when it has none, and the query vector has norm 1 when the query shares a
  term with the corpus and is all zero otherwise. The scores of the query cell are then
  the cosine similarities and lie between 0 and 1. These are facts of the reals; in
  float64 a norm or a score can miss the exact value by the last bit.
\<close>

lemma vocabulary_set: "set (vocabulary docs) = set (concat docs)"
  by (simp add: vocabulary_def)

lemma tfidf_row_norm_zero_iff:
  "l2_norm (tfidf_row docs d) = 0 \<longleftrightarrow> set d \<inter> set (concat docs) = {}"
proof -
  have nz: "idf docs t \<noteq> 0" for t
    using idf_ge_1 [of docs t] by simp
  have "l2_norm (tfidf_row docs d) = 0 \<longleftrightarrow> (\<forall>x\<in>set (tfidf_row docs d). x = 0)"
    unfolding l2_norm_zero_iff by (metis in_set_replicate replicate_eqI)
  also have "\<dots> \<longleftrightarrow> (\<forall>t\<in>set (vocabulary docs). tf d t = 0)"
    by (auto simp: tfidf_row_def nz)
  also have "\<dots> \<longleftrightarrow> set d \<inter> set (concat docs) = {}"
    unfolding vocabulary_set tf_def by (auto simp: count_list_0_iff)
  finally show ?thesis .
qed

lemma normalize_l2_norm: "l2_norm (normalize_l2 v) = (if l2_norm v = 0 then 0 else 1)"
proof (cases "l2_norm v = 0")
  case True
  then show ?thesis by (simp add: normalize_l2_def)
next
  case False
  with l2_norm_nonneg [of v] have "0 < l2_norm v" by simp
  then show ?thesis by (simp add: normalize_l2_def l2_norm_scale)
qed

lemma fitted_row_exact_norm:
  assumes "d \<in> set docs"
  shows "l2_norm (normalize_l2 (tfidf_row docs d)) = (if d = [] then 0 else 1)"
proof -
  have "set d \<subseteq> set (concat docs)"
    using assms by auto
  then have "set d \<inter> set (concat docs) = set d"
    by blast
  then have "set d \<inter> set (concat docs) = {} \<longleftrightarrow> d = []"
    by simp
  then show ?thesis
    by (simp add: normalize_l2_norm tfidf_row_norm_zero_iff)
qed

lemma transform_exact_norm:
  "l2_norm (transform docs query) = (if set query \<inter> set (concat docs) = {} then 0 else 1)"
  by (simp add: transform_def normalize_l2_norm tfidf_row_norm_zero_iff)

lemma exact_scores_are_cosines_in_unit_interval:
  assumes "docs \<noteq> []" "vocabulary docs \<noteq> []"
  shows "linear_kernel (transform docs query) (fitted_rows docs)
           = Inr (map (cosine_similarity (transform docs query)) (fitted_rows docs))
         \<and> list_all (\<lambda>score. 0 \<le> score \<and> score \<le> 1)
             (map (cosine_similarity (transform docs query)) (fitted_rows docs))"
proof -
  have shape: "list_all (\<lambda>row. length row = length (transform docs query)) (fitted_rows docs)"
    using fitted_row_length by (auto simp: list_all_iff transform_length)
  have cos: "map (dot (transform docs query)) (fitted_rows docs)
             = map (cosine_similarity (transform docs query)) (fitted_rows docs)"
    by (rule map_cong) (simp_all add: score_is_cosine)
  have bounds: "list_all (\<lambda>score. 0 \<le> score \<and> score \<le> 1)
                  (map (dot (transform docs query)) (fitted_rows docs))"
    using score_bounds by (auto simp: list_all_iff)
  have rows: "fitted_rows docs \<noteq> []"
    using assms(1) by (simp add: fitted_rows_def)
  have cols: "transform docs query \<noteq> []"
    using assms(2) transform_length [of docs query] by auto
  have "linear_kernel (transform docs query) (fitted_rows docs)
        = Inr (map (dot (transform docs query)) (fitted_rows docs))"
    using shape rows cols by (simp add: linear_kernel_def)
  with bounds show ?thesis by (simp only: cos simp_thms)
qed

text \<open>
  Claim C4, as the vectorizer computes it. The weight of a term in a document of the
  fitted matrix is its term frequency times its inverse document frequency, divided by
  the Euclidean norm of the document's row of such products (left undivided when that
  norm is 0); the inverse document frequency is \<open>ln ((1 + N) / (1 + df)) + 1\<close> for a
  corpus of \<open>N\<close> documents, and it is strictly decreasing in the document frequency.
\<close>

theorem tfidf_weight_and_idf:
  "fitted_rows docs
     = map (\<lambda>d. map (\<lambda>t. real (tf d t) * idf docs t
                          / (if l2_norm (tfidf_row docs d) = 0 then 1 else l2_norm (tfidf_row docs d)))
                  (vocabulary docs)) docs
   \<and> idf docs t = ln ((1 + real (length docs)) / (1 + real (df docs t))) + 1
   \<and> (df docs t1 < df docs t2 \<longrightarrow> idf docs t2 < idf docs t1)"
proof -
  have "normalize_l2 (tfidf_row docs d)
        = map (\<lambda>t. real (tf d t) * idf docs t
                    / (if l2_norm (tfidf_row docs d) = 0 then 1 else l2_norm (tfidf_row docs d)))
            (vocabulary docs)" for d
    by (simp add: normalize_l2_def) (simp add: tfidf_row_def)
  then have "fitted_rows docs
     = map (\<lambda>d. map (\<lambda>t. real (tf d t) * idf docs t
                          / (if l2_norm (tfidf_row docs d) = 0 then 1 else l2_norm (tfidf_row docs d)))
                  (vocabulary docs)) docs"
    by (simp add: fitted_rows_def)
  moreover have "idf docs t = ln ((1 + real (length docs)) / (1 + real (df docs t))) + 1"
    by (simp add: idf_def idf_of_def)
  moreover have "df docs t1 < df docs t2 \<longrightarrow> idf docs t2 < idf docs t1"
    by (simp add: idf_def idf_of_decreasing)
  ultimately show ?thesis by blast
qed

theorem tfidf_weight_and_idf_witness:
  "df [[''gis'', ''map''], [''map'']] ''gis'' < df [[''gis'', ''map''], [''map'']] ''map''
   \<and> idf [[''gis'', ''map''], [''map'']] ''map'' < idf [[''gis'', ''map''], [''map'']] ''gis''"
proof -
  have less: "df [[''gis'', ''map''], [''map'']] ''gis'' < df [[''gis'', ''map''], [''map'']] ''map''"
    by (simp add: df_def)
  with tfidf_weight_and_idf [of "[[''gis'', ''map''], [''map'']]" "''gis''" "''gis''" "''map''"]
  show ?thesis by blast
qed

lemma vocabulary_example: "vocabulary [[''gis'', ''map'']] = [''gis'', ''map'']"
  by code_simp

text \<open>
  One document with two terms: term frequency times inverse document frequency is 1 for
  each term, and the fitted weight is \<open>1 / sqrt 2\<close>.
\<close>

theorem tfidf_weight_is_normalised:
  "vocabulary [[''gis'', ''map'']] ! 0 = ''gis''
   \<and> real (tf [''gis'', ''map''] ''gis'') * idf [[''gis'', ''map'']] ''gis'' = 1
   \<and> fitted_rows [[''gis'', ''map'']] ! 0 ! 0 = 1 / sqrt 2
   \<and> fitted_rows [[''gis'', ''map'']] ! 0 ! 0
       \<noteq> real (tf [''gis'', ''map''] ''gis'') * idf [[''gis'', ''map'']] ''gis''"
proof -
  have w: "real (tf [''gis'', ''map''] ''gis'') * idf [[''gis'', ''map'']] ''gis'' = 1"
    by (simp add: tf_def idf_def idf_of_def df_def)
  have row: "tfidf_row [[''gis'', ''map'']] [''gis'', ''map''] = [1, 1]"
    by (simp add: tfidf_row_def vocabulary_example tf_def idf_def idf_of_def df_def)
  have "l2_norm [1, 1] = sqrt 2"
    by (simp add: l2_norm_def)
  then have f: "fitted_rows [[''gis'', ''map'']] ! 0 ! 0 = 1 / sqrt 2"
    by (simp add: fitted_rows_def row normalize_l2_def)
  have "1 / sqrt 2 \<noteq> (1::real)"
    by simp
  with w f show ?thesis by (simp add: vocabulary_example)
qed

end
